theory Spec2Isabelle
  imports Main "HOL-Library.Multiset" "HOL-Library.Product_Lexorder"
begin

section \<open>JavaScript numbers and strings\<close>

text \<open>
  The payroll service (\<^verbatim>\<open>index.js\<close>) computes with JavaScript numbers and strings.
  A number is modelled as an exact integer or \<open>NaN\<close>; arithmetic on doubles is taken
  to be exact, which it is for integers below \<open>2^53\<close>. Money and hours are carried in
  hundredths: the column \<^verbatim>\<open>hours_worked\<close> is \<^verbatim>\<open>DECIMAL(5, 2)\<close> in \<^verbatim>\<open>schema.sql\<close>,
  so \<open>Num c\<close> in an amount stands for the JavaScript number \<open>c / 100\<close>.
\<close>

datatype jsnum = Num int | NaN

fun js_add :: "jsnum \<Rightarrow> jsnum \<Rightarrow> jsnum" where
  "js_add (Num a) (Num b) = Num (a + b)"
| "js_add _ _ = NaN"

fun js_sub :: "jsnum \<Rightarrow> jsnum \<Rightarrow> jsnum" where
  "js_sub (Num a) (Num b) = Num (a - b)"
| "js_sub _ _ = NaN"

fun js_mul :: "jsnum \<Rightarrow> jsnum \<Rightarrow> jsnum" where
  "js_mul (Num a) (Num b) = Num (a * b)"
| "js_mul _ _ = NaN"

text \<open>\<open>ToNumber\<close> of a value that may be \<^verbatim>\<open>undefined\<close>: \<^verbatim>\<open>undefined\<close> becomes \<open>NaN\<close>.\<close>

fun ToNumber :: "int option \<Rightarrow> jsnum" where
  "ToNumber (Some n) = Num n"
| "ToNumber None = NaN"

definition digit_char :: "nat \<Rightarrow> char" where
  "digit_char d = ''0123456789'' ! d"

definition is_digit :: "char \<Rightarrow> bool" where
  "is_digit c = (c \<in> set ''0123456789'')"

definition digit_val :: "char \<Rightarrow> nat" where
  "digit_val c = length (takeWhile (\<lambda>d. d \<noteq> c) ''0123456789'')"

text \<open>\<^verbatim>\<open>Number.prototype.toString\<close> on a non-negative integer, and on an integer.\<close>

fun show_nat :: "nat \<Rightarrow> string" where
  "show_nat n =
     (if n < 10 then [digit_char n] else show_nat (n div 10) @ [digit_char (n mod 10)])"

declare show_nat.simps [simp del]

definition show_int :: "int \<Rightarrow> string" where
  "show_int i = (if i < 0 then CHR ''-'' # show_nat (nat (- i)) else show_nat (nat i))"

text \<open>\<^verbatim>\<open>String.prototype.padStart(n, c)\<close> with a one-character filler.\<close>

definition padStart :: "nat \<Rightarrow> char \<Rightarrow> string \<Rightarrow> string" where
  "padStart n c s = replicate (n - length s) c @ s"

text \<open>The value of a string of decimal digits.\<close>

definition digits_value :: "string \<Rightarrow> nat" where
  "digits_value s = foldl (\<lambda>a c. 10 * a + digit_val c) 0 s"

text \<open>
  The coercion of a string to a number, as the subtraction in the sort comparator
  applies it. Only decimal integer literals (an optional minus sign and digits) are
  given a value; these are the strings \<^verbatim>\<open>toString\<close> produces for an integer.
\<close>

definition StringToNumber :: "string \<Rightarrow> jsnum" where
  "StringToNumber s =
     (case s of
        [] \<Rightarrow> NaN
      | c # r \<Rightarrow>
          if c = CHR ''-'' then
            (if r \<noteq> [] \<and> list_all is_digit r then Num (- int (digits_value r)) else NaN)
          else if list_all is_digit s then Num (int (digits_value s))
          else NaN)"

text \<open>
  \<^verbatim>\<open>Number.prototype.toFixed(2)\<close> of an amount in hundredths: the sign, the integer
  part, a point and two digits; \<open>NaN\<close> prints as \<^verbatim>\<open>NaN\<close>.
\<close>

fun toFixed2 :: "jsnum \<Rightarrow> string" where
  "toFixed2 NaN = ''NaN''"
| "toFixed2 (Num c) =
     (if c < 0 then ''-'' else '''') @ show_nat (nat \<bar>c\<bar> div 100) @ ''.'' @
       padStart 2 (CHR ''0'') (show_nat (nat \<bar>c\<bar> mod 100))"

section \<open>Calendar dates\<close>

text \<open>
  A \<^verbatim>\<open>Date\<close> object, by the local calendar fields the code reads from it:
  \<^verbatim>\<open>getFullYear()\<close>, \<^verbatim>\<open>getMonth()\<close> (0 to 11) and \<^verbatim>\<open>getDate()\<close> (1 to 31).
\<close>

record jsdate =
  getFullYear :: int
  getMonth :: nat
  getDate :: nat

definition InLeapYear :: "int \<Rightarrow> bool" where
  "InLeapYear y = (y mod 4 = 0 \<and> (y mod 100 \<noteq> 0 \<or> y mod 400 = 0))"

text \<open>The number of days of month \<open>m\<close> (1 to 12) of year \<open>y\<close>.\<close>

definition DaysInMonth :: "int \<Rightarrow> nat \<Rightarrow> nat" where
  "DaysInMonth y m =
     (if m = 2 then (if InLeapYear y then 29 else 28)
      else if m = 4 \<or> m = 6 \<or> m = 9 \<or> m = 11 then 30 else 31)"

definition valid_date :: "jsdate \<Rightarrow> bool" where
  "valid_date d =
     (getMonth d < 12 \<and> 1 \<le> getDate d \<and>
      getDate d \<le> DaysInMonth (getFullYear d) (getMonth d + 1))"

text \<open>
  \<^verbatim>\<open>new Date(year, month, 0).getDate()\<close> for \<open>month\<close> from 1 to 12: day 0 of month index
  \<open>month\<close> is the last day of the month before it. The \<^verbatim>\<open>Date\<close> constructor reads a
  year from 0 to 99 as 1900 plus that year.
\<close>

definition new_Date_day0_getDate :: "int \<Rightarrow> nat \<Rightarrow> nat" where
  "new_Date_day0_getDate year month =
     DaysInMonth (if 0 \<le> year \<and> year \<le> 99 then 1900 + year else year) month"

text \<open>The day number of a calendar date, counted from 1 January 1970 (\<open>MakeDay\<close>).\<close>

definition DayFromYear :: "int \<Rightarrow> int" where
  "DayFromYear y =
     365 * (y - 1970) + (y - 1969) div 4 - (y - 1901) div 100 + (y - 1601) div 400"

definition days_before_month :: "int \<Rightarrow> nat \<Rightarrow> int" where
  "days_before_month y m = int (sum_list (map (DaysInMonth y) [1..<m]))"

definition MakeDay :: "int \<Rightarrow> nat \<Rightarrow> nat \<Rightarrow> int" where
  "MakeDay y m d = DayFromYear y + days_before_month y m + int d - 1"

definition msPerDay :: int where
  "msPerDay = 86400000"

text \<open>
  \<^verbatim>\<open>new Date(s)\<close> read as a time value. A string of the form \<^verbatim>\<open>YYYY-MM-DD\<close> naming a
  calendar date is the midnight that starts that day (UTC). Any other string is left to
  the engine by the language: its reading is the parameter \<open>legacy\<close>.
\<close>

definition iso_date_fields :: "string \<Rightarrow> (nat \<times> nat \<times> nat) option" where
  "iso_date_fields s =
     (if length s = 10 \<and> s ! 4 = CHR ''-'' \<and> s ! 7 = CHR ''-'' \<and>
         list_all is_digit (take 4 s) \<and> list_all is_digit (take 2 (drop 5 s)) \<and>
         list_all is_digit (drop 8 s)
      then Some (digits_value (take 4 s), digits_value (take 2 (drop 5 s)),
                 digits_value (drop 8 s))
      else None)"

definition Date_parse :: "(string \<Rightarrow> jsnum) \<Rightarrow> string \<Rightarrow> jsnum" where
  "Date_parse legacy s =
     (case iso_date_fields s of
        None \<Rightarrow> legacy s
      | Some (y, m, d) \<Rightarrow>
          if 1 \<le> m \<and> m \<le> 12 \<and> 1 \<le> d \<and> d \<le> DaysInMonth (int y) m
          then Num (MakeDay (int y) m d * msPerDay)
          else legacy s)"

section \<open>The pay period of a date\<close>

record pay_period =
  startDate :: string
  endDate :: string

definition getPayPeriod :: "jsdate \<Rightarrow> pay_period" where
  "getPayPeriod date =
     (let year = getFullYear date;
          month = getMonth date + 1
      in if getDate date \<le> 15 then
           \<lparr>startDate = show_int year @ ''-'' @ padStart 2 (CHR ''0'') (show_nat month) @ ''-01'',
            endDate = show_int year @ ''-'' @ padStart 2 (CHR ''0'') (show_nat month) @ ''-15''\<rparr>
         else
           let lastDayOfMonth = new_Date_day0_getDate year month
           in \<lparr>startDate =
                 show_int year @ ''-'' @ padStart 2 (CHR ''0'') (show_nat month) @ ''-16'',
               endDate =
                 show_int year @ ''-'' @ padStart 2 (CHR ''0'') (show_nat month) @ ''-'' @
                 show_nat lastDayOfMonth\<rparr>)"

text \<open>
  The date \<^verbatim>\<open>YYYY-MM-DD\<close> as the specification writes it: four, two and two digits.
\<close>

definition spec_iso_date :: "int \<Rightarrow> nat \<Rightarrow> nat \<Rightarrow> string" where
  "spec_iso_date y m d =
     padStart 4 (CHR ''0'') (show_int y) @ ''-'' @ padStart 2 (CHR ''0'') (show_nat m) @ ''-'' @
     padStart 2 (CHR ''0'') (show_nat d)"

definition is_iso_date :: "string \<Rightarrow> bool" where
  "is_iso_date s = (iso_date_fields s \<noteq> None)"

section \<open>The payroll report\<close>

text \<open>
  A row of \<^verbatim>\<open>timekeeping_entries\<close> as the query of \<^verbatim>\<open>GET /report\<close> returns it: the date
  as a \<^verbatim>\<open>Date\<close>, the hours worked in hundredths, the employee id, the job group.
\<close>

record timekeeping_row =
  date :: jsdate
  hours_worked :: int
  employee_id :: int
  job_group :: string

text \<open>
  \<^verbatim>\<open>jobGroupRates[jobGroup]\<close>: 30 for \<^verbatim>\<open>A\<close>, 20 for \<^verbatim>\<open>B\<close>, \<^verbatim>\<open>undefined\<close> otherwise.
\<close>

definition jobGroupRates :: "string \<Rightarrow> int option" where
  "jobGroupRates jobGroup =
     (if jobGroup = ''A'' then Some 30 else if jobGroup = ''B'' then Some 20 else None)"

text \<open>An entry of \<^verbatim>\<open>employeePayData\<close>, and a line of the rendered report.\<close>

record pay_data =
  data_employeeId :: int
  data_payPeriod :: pay_period
  data_amountPaid :: jsnum

record report_line =
  employeeId :: string
  payPeriod :: pay_period
  amountPaid :: string

text \<open>
  \<^verbatim>\<open>employeePayData\<close> is an object with string keys; its keys are enumerated in the
  order of their insertion, so it is an association list that grows at its end.
\<close>

definition add_amount ::
  "string \<Rightarrow> jsnum \<Rightarrow> (string \<times> pay_data) list \<Rightarrow> (string \<times> pay_data) list" where
  "add_amount key x employeePayData =
     map (\<lambda>(k, v). if k = key then (k, v\<lparr>data_amountPaid := js_add (data_amountPaid v) x\<rparr>)
                    else (k, v)) employeePayData"

definition combine_row ::
  "(string \<times> pay_data) list \<Rightarrow> timekeeping_row \<Rightarrow> (string \<times> pay_data) list" where
  "combine_row employeePayData row =
     (let employeeId = employee_id row;
          hoursWorked = hours_worked row;
          jobGroup = job_group row;
          payRate = jobGroupRates jobGroup;
          payPeriod = getPayPeriod (date row);
          key = show_int employeeId @ ''-'' @ startDate payPeriod @ ''-'' @ endDate payPeriod;
          created =
            (if map_of employeePayData key = None
             then employeePayData @
                  [(key, \<lparr>data_employeeId = employeeId, data_payPeriod = payPeriod,
                          data_amountPaid = Num 0\<rparr>)]
             else employeePayData)
      in add_amount key (js_mul (Num hoursWorked) (ToNumber payRate)) created)"

definition format_line :: "pay_data \<Rightarrow> report_line" where
  "format_line employeeData =
     \<lparr>employeeId = show_int (data_employeeId employeeData),
      payPeriod = data_payPeriod employeeData,
      amountPaid = ''$'' @ toFixed2 (data_amountPaid employeeData)\<rparr>"

definition compare_lines :: "(string \<Rightarrow> jsnum) \<Rightarrow> report_line \<Rightarrow> report_line \<Rightarrow> jsnum" where
  "compare_lines legacy a b =
     (if employeeId a = employeeId b
      then js_sub (Date_parse legacy (startDate (payPeriod a)))
                  (Date_parse legacy (startDate (payPeriod b)))
      else js_sub (StringToNumber (employeeId a)) (StringToNumber (employeeId b)))"

text \<open>
  \<^verbatim>\<open>Array.prototype.sort\<close> with a comparator is a stable sort: an element moves behind
  another only when the comparator is positive. It is modelled as a stable insertion
  sort; a comparator result of \<open>NaN\<close> counts as zero.
\<close>

fun comes_after :: "jsnum \<Rightarrow> bool" where
  "comes_after (Num v) = (0 < v)"
| "comes_after NaN = False"

fun sort_insert :: "('a \<Rightarrow> 'a \<Rightarrow> jsnum) \<Rightarrow> 'a \<Rightarrow> 'a list \<Rightarrow> 'a list" where
  "sort_insert cmp x [] = [x]"
| "sort_insert cmp x (y # ys) =
     (if comes_after (cmp x y) then y # sort_insert cmp x ys else x # y # ys)"

definition array_sort :: "('a \<Rightarrow> 'a \<Rightarrow> jsnum) \<Rightarrow> 'a list \<Rightarrow> 'a list" where
  "array_sort cmp xs = foldr (sort_insert cmp) xs []"

definition report :: "(string \<Rightarrow> jsnum) \<Rightarrow> timekeeping_row list \<Rightarrow> report_line list" where
  "report legacy timekeepingData =
     (let employeePayData = foldl combine_row [] timekeepingData;
          employeeReports = map (\<lambda>(key, employeeData). format_line employeeData) employeePayData
      in array_sort (compare_lines legacy) employeeReports)"

definition row_key :: "timekeeping_row \<Rightarrow> string" where
  "row_key row =
     show_int (employee_id row) @ ''-'' @ startDate (getPayPeriod (date row)) @ ''-'' @
     endDate (getPayPeriod (date row))"

definition row_amount :: "timekeeping_row \<Rightarrow> jsnum" where
  "row_amount row = js_mul (Num (hours_worked row)) (ToNumber (jobGroupRates (job_group row)))"

definition js_sum :: "jsnum list \<Rightarrow> jsnum" where
  "js_sum xs = foldl js_add (Num 0) xs"

definition line_of :: "timekeeping_row list \<Rightarrow> timekeeping_row \<Rightarrow> report_line" where
  "line_of rows r =
     \<lparr>employeeId = show_int (employee_id r), payPeriod = getPayPeriod (date r),
      amountPaid = ''$'' @ toFixed2 (js_sum (map row_amount (filter (\<lambda>r'. row_key r' = row_key r) rows)))\<rparr>"

definition group_inv :: "timekeeping_row list \<Rightarrow> (string \<times> pay_data) list \<Rightarrow> bool" where
  "group_inv rows acc =
     (distinct (map fst acc) \<and> fst ` set acc = row_key ` set rows \<and>
      (\<forall>(k, v)\<in>set acc. \<exists>r\<in>set rows. row_key r = k \<and> data_employeeId v = employee_id r \<and>
          data_payPeriod v = getPayPeriod (date r) \<and>
          data_amountPaid v = js_sum (map row_amount (filter (\<lambda>r'. row_key r' = k) rows))))"

definition pair_rows :: "string \<Rightarrow> pay_period \<Rightarrow> timekeeping_row list \<Rightarrow> timekeeping_row list" where
  "pair_rows e p rows = filter (\<lambda>r. show_int (employee_id r) = e \<and> getPayPeriod (date r) = p) rows"

definition unsorted_lines :: "timekeeping_row list \<Rightarrow> report_line list" where
  "unsorted_lines rows = map (\<lambda>(key, employeeData). format_line employeeData) (foldl combine_row [] rows)"

fun the_num :: "jsnum \<Rightarrow> int" where
  "the_num (Num i) = i"
| "the_num NaN = 0"







section \<open>The upload of a time report\<close>

subsection \<open>File names\<close>

text \<open>
  \<^verbatim>\<open>file.originalname\<close> is the name the client gave the file, without a directory
  part. On such a name \<^verbatim>\<open>path.extname\<close> returns the text from the last dot on, unless
  there is no dot, the last dot is the first character, or the name is \<^verbatim>\<open>..\<close>; and
  \<^verbatim>\<open>path.basename(name, ext)\<close> removes \<open>ext\<close> from the end of the name when the name
  ends with it, letter case included.
\<close>

definition extname :: "string \<Rightarrow> string" where
  "extname name =
     (if CHR ''.'' \<notin> set name then []
      else let startDot = length name - length (takeWhile (\<lambda>c. c \<noteq> CHR ''.'') (rev name)) - 1
           in if startDot = 0 \<or> name = ''..'' then [] else drop startDot name)"

definition basename :: "string \<Rightarrow> string \<Rightarrow> string" where
  "basename name ext =
     (if ext \<noteq> [] \<and> length ext \<le> length name \<and> drop (length name - length ext) name = ext
      then take (length name - length ext) name
      else name)"

text \<open>\<^verbatim>\<open>toLowerCase\<close> on the letters A to Z; other characters stay as they are.\<close>

definition toLowerCase_char :: "char \<Rightarrow> char" where
  "toLowerCase_char c =
     (case map_of (zip ''ABCDEFGHIJKLMNOPQRSTUVWXYZ'' ''abcdefghijklmnopqrstuvwxyz'') c of
        Some l \<Rightarrow> l
      | None \<Rightarrow> c)"

definition toLowerCase :: "string \<Rightarrow> string" where
  "toLowerCase s = map toLowerCase_char s"

text \<open>
  \<^verbatim>\<open>fileName.match(/^time-report-(\d+)$/)\<close>: the captured digits, or no match.
\<close>

definition match_time_report :: "string \<Rightarrow> string option" where
  "match_time_report fileName =
     (let digits = drop (length ''time-report-'') fileName
      in if take (length ''time-report-'') fileName = ''time-report-'' \<and> digits \<noteq> [] \<and>
            list_all is_digit digits
         then Some digits else None)"

subsection \<open>Reading the CSV file\<close>

text \<open>
  A row is the object the CSV parser emits: the cell of each header it has a cell for.
  The parser reports the file through events: the headers, each data row, then the end
  or an error.
\<close>

type_synonym csv_row = "(string \<times> string) list"

datatype csv_event = Headers "string list" | Data csv_row | End | StreamError

text \<open>
  The errors the upload raises: the four \<^verbatim>\<open>CSV format error\<close> messages, an error of the
  file stream, and the rejection of a query by the store.
\<close>

datatype exn =
    MissingHeaders "string list"
  | HeadersNotFound
  | MalformedRow
  | InvalidDateFormat csv_row
  | ReadError
  | QueryError

definition requiredHeaders :: "string list" where
  "requiredHeaders = [''date'', ''hours worked'', ''employee id'', ''job group'']"

definition is_white_space :: "char \<Rightarrow> bool" where
  "is_white_space c =
     (c = CHR '' '' \<or> c = CHR 0x09 \<or> c = CHR 0x0A \<or> c = CHR 0x0B \<or> c = CHR 0x0C \<or>
      c = CHR 0x0D)"

definition trim :: "string \<Rightarrow> string" where
  "trim s = rev (dropWhile is_white_space (rev (dropWhile is_white_space s)))"

definition row_isEmpty :: "csv_row \<Rightarrow> bool" where
  "row_isEmpty row = list_all (\<lambda>value. trim value = []) (map snd row)"

text \<open>
  The promise of \<^verbatim>\<open>processCSVFile\<close> is settled by the first call of \<^verbatim>\<open>resolve\<close> or
  \<^verbatim>\<open>reject\<close>; later calls change nothing.
\<close>

record csv_state =
  results :: "csv_row list"
  headersValidated :: bool
  settled :: "(exn + csv_row list) option"

definition settle :: "exn + csv_row list \<Rightarrow> csv_state \<Rightarrow> csv_state" where
  "settle v s = (if settled s = None then s\<lparr>settled := Some v\<rparr> else s)"

fun on_event :: "csv_state \<Rightarrow> csv_event \<Rightarrow> csv_state" where
  "on_event s (Headers headers) =
     (let missingHeaders = filter (\<lambda>header. header \<notin> set headers) requiredHeaders;
          s' = (if length missingHeaders > 0 then settle (Inl (MissingHeaders missingHeaders)) s
                else s)
      in s'\<lparr>headersValidated := True\<rparr>)"
| "on_event s (Data row) =
     (let isEmpty = row_isEmpty row
      in if \<not> isEmpty then s\<lparr>results := results s @ [row]\<rparr> else s)"
| "on_event s End =
     (if \<not> headersValidated s then settle (Inl HeadersNotFound) s
      else settle (Inr (results s)) s)"
| "on_event s StreamError = settle (Inl ReadError) s"

text \<open>The result is \<open>None\<close> when the events never settle the promise.\<close>

definition processCSVFile :: "csv_event list \<Rightarrow> (exn + csv_row list) option" where
  "processCSVFile events =
     settled (foldl on_event \<lparr>results = [], headersValidated = False, settled = None\<rparr> events)"

subsection \<open>The store\<close>

text \<open>
  The tables of \<^verbatim>\<open>schema.sql\<close>. A row of \<^verbatim>\<open>timekeeping_entries\<close> is kept as the
  parameters of its \<^verbatim>\<open>INSERT\<close>. The connection holds the tables and, inside a
  transaction, the tables as they were at \<^verbatim>\<open>BEGIN\<close>.
\<close>

record report_row =
  report_id :: string
  filename :: string

record entry_row =
  e_report_id :: string
  e_date :: string
  e_hours_worked :: string
  e_employee_id :: string
  e_job_group :: string

record database =
  timekeeping_reports :: "report_row list"
  timekeeping_entries :: "entry_row list"

record client =
  tables :: database
  snapshot :: "database option"

definition query_select_report :: "client \<Rightarrow> string \<Rightarrow> report_row list" where
  "query_select_report c reportId =
     filter (\<lambda>r. report_id r = reportId) (timekeeping_reports (tables c))"

definition query_begin :: "client \<Rightarrow> client" where
  "query_begin c = (if snapshot c = None then c\<lparr>snapshot := Some (tables c)\<rparr> else c)"

text \<open>\<^verbatim>\<open>report_id\<close> is \<^verbatim>\<open>UNIQUE\<close>: a second row with the same identifier is rejected.\<close>

definition query_insert_report :: "client \<Rightarrow> string \<Rightarrow> string \<Rightarrow> exn + client" where
  "query_insert_report c reportId name =
     (if query_select_report c reportId \<noteq> [] then Inl QueryError
      else Inr (c\<lparr>tables := (tables c)\<lparr>timekeeping_reports :=
                  timekeeping_reports (tables c) @ [\<lparr>report_id = reportId, filename = name\<rparr>]\<rparr>\<rparr>))"

definition query_insert_entry :: "client \<Rightarrow> entry_row \<Rightarrow> client" where
  "query_insert_entry c e =
     c\<lparr>tables := (tables c)\<lparr>timekeeping_entries := timekeeping_entries (tables c) @ [e]\<rparr>\<rparr>"

definition query_commit :: "client \<Rightarrow> client" where
  "query_commit c = c\<lparr>snapshot := None\<rparr>"

definition query_rollback :: "client \<Rightarrow> client" where
  "query_rollback c =
     (case snapshot c of None \<Rightarrow> c | Some s \<Rightarrow> c\<lparr>tables := s, snapshot := None\<rparr>)"

text \<open>
  The queued \<^verbatim>\<open>INSERT\<close>s run in their order. Whether the store takes the values of a row
  for its columns is the parameter \<open>accepts\<close>. After the first rejection the
  transaction is aborted and the later statements change nothing. The flag tells
  whether a statement was rejected.
\<close>

fun run_inserts :: "(entry_row \<Rightarrow> bool) \<Rightarrow> client \<Rightarrow> entry_row list \<Rightarrow> client \<times> bool" where
  "run_inserts accepts c [] = (c, False)"
| "run_inserts accepts c (e # es) =
     (if accepts e then run_inserts accepts (query_insert_entry c e) es else (c, True))"

subsection \<open>The handler of \<^verbatim>\<open>POST /upload\<close>\<close>

text \<open>\<^verbatim>\<open>String.prototype.split\<close> on a one-character separator.\<close>

fun split_on :: "char \<Rightarrow> string \<Rightarrow> string list" where
  "split_on sep [] = [[]]"
| "split_on sep (x # xs) =
     (if x = sep then [] # split_on sep xs
      else case split_on sep xs of
             [] \<Rightarrow> [[x]]
           | part # parts \<Rightarrow> (x # part) # parts)"

text \<open>
  The callback of \<^verbatim>\<open>results.map\<close> on one row: it throws, or gives the parameters of
  the \<^verbatim>\<open>INSERT\<close> it issues. \<^verbatim>\<open>!date\<close> holds for a missing and for an empty cell.
\<close>

definition insert_params :: "string \<Rightarrow> csv_row \<Rightarrow> exn + entry_row" where
  "insert_params reportId row =
     (case (map_of row ''date'', map_of row ''hours worked'', map_of row ''employee id'',
            map_of row ''job group'') of
        (Some date', Some hours_worked', Some employee_id', Some job_group') \<Rightarrow>
          if date' = [] \<or> job_group' = [] then Inl MalformedRow
          else
            (case split_on (CHR ''/'') date' of
               [day, month, year] \<Rightarrow>
                 Inr \<lparr>e_report_id = reportId,
                      e_date = year @ ''-'' @ padStart 2 (CHR ''0'') month @ ''-'' @
                               padStart 2 (CHR ''0'') day,
                      e_hours_worked = hours_worked',
                      e_employee_id = employee_id',
                      e_job_group = job_group'\<rparr>
             | _ \<Rightarrow> Inl (InvalidDateFormat row))
      | _ \<Rightarrow> Inl MalformedRow)"

text \<open>
  \<^verbatim>\<open>results.map\<close>: the rows in their order; the queries issued before a callback
  throws, and the error thrown.
\<close>

fun map_rows :: "string \<Rightarrow> csv_row list \<Rightarrow> entry_row list \<times> exn option" where
  "map_rows reportId [] = ([], None)"
| "map_rows reportId (row # rows) =
     (case insert_params reportId row of
        Inl error \<Rightarrow> ([], Some error)
      | Inr e \<Rightarrow> (case map_rows reportId rows of (es, thrown) \<Rightarrow> (e # es, thrown)))"

datatype response_body = error_body string | message_body string

record response =
  status :: nat
  body :: response_body

record upload_file =
  originalname :: string
  path :: string
  content :: "csv_event list"

text \<open>
  What a request leaves behind: the response, the error the \<^verbatim>\<open>catch\<close> block logged,
  the connection, and the staged files under \<^verbatim>\<open>uploads/\<close>.
\<close>

record outcome =
  res :: response
  logged :: "exn option"
  client_after :: client
  uploads_after :: "string set"

definition catch_block :: "exn \<Rightarrow> client \<Rightarrow> string set \<Rightarrow> outcome" where
  "catch_block error c uploads =
     \<lparr>res = \<lparr>status = 500, body = error_body ''Internal server error''\<rparr>,
      logged = Some error, client_after = query_rollback c, uploads_after = uploads\<rparr>"

definition upload ::
  "(entry_row \<Rightarrow> bool) \<Rightarrow> client \<Rightarrow> string set \<Rightarrow> upload_file option \<Rightarrow> outcome option" where
  "upload accepts c uploads req_file =
     (case req_file of
        None \<Rightarrow>
          Some \<lparr>res = \<lparr>status = 400, body = error_body ''No file uploaded''\<rparr>,
                logged = None, client_after = c, uploads_after = uploads\<rparr>
      | Some file \<Rightarrow>
          if toLowerCase (extname (originalname file)) \<noteq> ''.csv'' then
            Some \<lparr>res = \<lparr>status = 400, body = error_body ''Only CSV files are allowed''\<rparr>,
                  logged = None, client_after = c, uploads_after = uploads - {path file}\<rparr>
          else
            let fileName = basename (originalname file) ''.csv'' in
            case match_time_report fileName of
              None \<Rightarrow>
                Some \<lparr>res = \<lparr>status = 400, body = error_body
                        ''Invalid file name format. Expected format: time-report-x.csv''\<rparr>,
                      logged = None, client_after = c, uploads_after = uploads - {path file}\<rparr>
            | Some reportId \<Rightarrow>
                let existingReport = query_select_report c reportId in
                if existingReport \<noteq> [] then
                  Some \<lparr>res = \<lparr>status = 409, body = error_body ''Report ID already exists''\<rparr>,
                        logged = None, client_after = c, uploads_after = uploads - {path file}\<rparr>
                else
                  case processCSVFile (content file) of
                    None \<Rightarrow> None
                  | Some (Inl error) \<Rightarrow> Some (catch_block error c uploads)
                  | Some (Inr results') \<Rightarrow>
                      if results' = [] then
                        Some \<lparr>res = \<lparr>status = 400,
                                     body = error_body ''Invalid CSV format: File Empty''\<rparr>,
                              logged = None, client_after = c,
                              uploads_after = uploads - {path file}\<rparr>
                      else
                        case query_insert_report (query_begin c) reportId (originalname file) of
                          Inl error \<Rightarrow> Some (catch_block error (query_begin c) uploads)
                        | Inr c2 \<Rightarrow>
                            (case map_rows reportId results' of
                               (issued, Some error) \<Rightarrow>
                                 Some (catch_block error (fst (run_inserts accepts c2 issued)) uploads)
                             | (issued, None) \<Rightarrow>
                                 (case run_inserts accepts c2 issued of
                                    (c3, True) \<Rightarrow> Some (catch_block QueryError c3 uploads)
                                  | (c3, False) \<Rightarrow>
                                      Some \<lparr>res = \<lparr>status = 201, body = message_body
                                              ''File uploaded and data stored successfully''\<rparr>,
                                            logged = None, client_after = query_commit c3,
                                            uploads_after = uploads - {path file}\<rparr>)))"

section \<open>Example data\<close>

text \<open>
  The rows of the repository's report test, and rows with a job group that has no pay
  rate. \<open>no_legacy_dates\<close> is an engine that reads no date string but \<^verbatim>\<open>YYYY-MM-DD\<close>.
\<close>

definition no_legacy_dates :: "string \<Rightarrow> jsnum" where
  "no_legacy_dates s = NaN"

definition mk_row :: "int \<Rightarrow> nat \<Rightarrow> nat \<Rightarrow> int \<Rightarrow> int \<Rightarrow> string \<Rightarrow> timekeeping_row" where
  "mk_row y m d h e g =
     \<lparr>date = \<lparr>getFullYear = y, getMonth = m, getDate = d\<rparr>, hours_worked = h,
      employee_id = e, job_group = g\<rparr>"


definition unknown_group_rows :: "timekeeping_row list" where
  "unknown_group_rows = [mk_row 2023 0 14 500 1 ''C'', mk_row 2023 0 4 1000 1 ''A'']"

lemma lt10_cases:
  "d < (10::nat) \<Longrightarrow>
   d = 0 \<or> d = 1 \<or> d = 2 \<or> d = 3 \<or> d = 4 \<or> d = 5 \<or> d = 6 \<or> d = 7 \<or> d = 8 \<or> d = 9"
  by arith

lemma digit_val_digit_char: "d < 10 \<Longrightarrow> digit_val (digit_char d) = d"
  using lt10_cases [of d] by (auto simp: digit_char_def digit_val_def)

lemma is_digit_digit_char: "d < 10 \<Longrightarrow> is_digit (digit_char d)"
  using lt10_cases [of d] by (auto simp: digit_char_def is_digit_def)

lemma minus_not_digit: "\<not> is_digit (CHR ''-'')"
  by (simp add: is_digit_def)

lemma digits_value_snoc: "digits_value (s @ [c]) = 10 * digits_value s + digit_val c"
  by (simp add: digits_value_def)

lemma digits_value_zeros_aux: "foldl (\<lambda>a c. 10 * a + digit_val c) 0 (replicate k (CHR ''0'')) = 0"
  by (induction k) (simp_all add: digit_val_def)

lemma digits_value_zeros: "digits_value (replicate k (CHR ''0'') @ s) = digits_value s"
  by (simp add: digits_value_def digits_value_zeros_aux)

lemma show_nat_digits: "list_all is_digit (show_nat n)"
proof (induction n rule: show_nat.induct)
  case (1 n)
  show ?case
  proof (cases "n < 10")
    case True
    then show ?thesis by (simp add: show_nat.simps [of n] is_digit_digit_char)
  next
    case False
    with 1 show ?thesis by (simp add: show_nat.simps [of n] is_digit_digit_char)
  qed
qed

lemma show_nat_value: "digits_value (show_nat n) = n"
proof (induction n rule: show_nat.induct)
  case (1 n)
  show ?case
  proof (cases "n < 10")
    case True
    then show ?thesis
      using digits_value_snoc [of "[]" "digit_char n"]
      by (simp add: show_nat.simps [of n] digit_val_digit_char digits_value_def)
  next
    case False
    with 1 show ?thesis
      by (simp add: show_nat.simps [of n] digits_value_snoc digit_val_digit_char)
  qed
qed

lemma show_nat_not_Nil: "show_nat n \<noteq> []"
  by (subst show_nat.simps) simp

lemma show_nat_length_le: "0 < k \<Longrightarrow> n < 10 ^ k \<Longrightarrow> length (show_nat n) \<le> k"
proof (induction n arbitrary: k rule: show_nat.induct)
  case (1 n)
  show ?case
  proof (cases "n < 10")
    case True
    with 1 show ?thesis by (simp add: show_nat.simps [of n])
  next
    case False
    obtain j where k: "k = Suc j" using 1(2) by (cases k) auto
    have j: "0 < j" using 1(3) False k by (cases j) auto
    have "n div 10 < 10 ^ j" using 1(3) k by (simp add: less_mult_imp_div_less mult.commute)
    with 1(1) [OF False j] have "length (show_nat (n div 10)) \<le> j" by simp
    with False k show ?thesis by (simp add: show_nat.simps [of n])
  qed
qed

lemma show_nat_length_ge: "10 ^ k \<le> n \<Longrightarrow> k < length (show_nat n)"
proof (induction n arbitrary: k rule: show_nat.induct)
  case (1 n)
  show ?case
  proof (cases "n < 10")
    case True
    have "k = 0"
    proof (rule ccontr)
      assume "k \<noteq> 0"
      then have "(10::nat) ^ 1 \<le> 10 ^ k" by (intro power_increasing) auto
      with True 1(2) show False by simp
    qed
    then show ?thesis using show_nat_not_Nil [of n] by simp
  next
    case False
    show ?thesis
    proof (cases k)
      case 0
      then show ?thesis using show_nat_not_Nil [of n] by simp
    next
      case (Suc j)
      with 1(2) have "10 ^ j \<le> n div 10" by simp
      with 1(1) [OF False] have "j < length (show_nat (n div 10))" by simp
      with False Suc show ?thesis by (simp add: show_nat.simps [of n])
    qed
  qed
qed

lemma show_nat_length4: "1000 \<le> n \<Longrightarrow> n \<le> 9999 \<Longrightarrow> length (show_nat n) = 4"
  using show_nat_length_le [of 4 n] show_nat_length_ge [of 3 n] by simp

lemma padStart_length: "length s \<le> k \<Longrightarrow> length (padStart k c s) = k"
  by (simp add: padStart_def)

lemma padStart_id: "k \<le> length s \<Longrightarrow> padStart k c s = s"
  by (simp add: padStart_def)

lemma pad_show_nat_length: "0 < k \<Longrightarrow> n < 10 ^ k \<Longrightarrow> length (padStart k (CHR ''0'') (show_nat n)) = k"
  by (simp add: padStart_length show_nat_length_le)

lemma is_digit_zero: "is_digit (CHR ''0'')"
  by (simp add: is_digit_def)

lemma pad_show_nat_digits: "list_all is_digit (padStart k (CHR ''0'') (show_nat n))"
  using show_nat_digits [of n] by (auto simp: padStart_def list_all_iff is_digit_zero)

lemma pad_show_nat_value: "digits_value (padStart k (CHR ''0'') (show_nat n)) = n"
  by (simp add: padStart_def digits_value_zeros show_nat_value)

lemma iso_date_fields_parts:
  assumes "length a = 4" "length b = 2" "length c = 2"
    and "list_all is_digit a" "list_all is_digit b" "list_all is_digit c"
  shows "iso_date_fields (a @ ''-'' @ b @ ''-'' @ c) =
           Some (digits_value a, digits_value b, digits_value c)"
  using assms by (simp add: iso_date_fields_def nth_append)

lemma show_nat_length2: "10 \<le> n \<Longrightarrow> n \<le> 99 \<Longrightarrow> length (show_nat n) = 2"
  using show_nat_length_le [of 2 n] show_nat_length_ge [of 1 n] by simp

lemma DaysInMonth_bounds: "28 \<le> DaysInMonth y m \<and> DaysInMonth y m \<le> 31"
  by (simp add: DaysInMonth_def)

lemma pad2_DaysInMonth: "padStart 2 (CHR ''0'') (show_nat (DaysInMonth y m)) = show_nat (DaysInMonth y m)"
  using DaysInMonth_bounds [of y m] by (intro padStart_id) (simp add: show_nat_length2)

lemma pad2_consts:
  "padStart 2 (CHR ''0'') (show_nat 1) = ''01''"
  "padStart 2 (CHR ''0'') (show_nat 15) = ''15''"
  "padStart 2 (CHR ''0'') (show_nat 16) = ''16''"
  by (simp_all add: padStart_def show_nat.simps digit_char_def)

lemma spec_iso_date_fields:
  assumes "0 \<le> y" "y \<le> 9999" "m \<le> 99" "d \<le> 99"
  shows "iso_date_fields (spec_iso_date y m d) = Some (nat y, m, d)"
proof -
  have y: "show_int y = show_nat (nat y)" using assms(1) by (simp add: show_int_def)
  have "nat y < 10 ^ 4" using assms(2) by simp
  then have 1: "length (padStart 4 (CHR ''0'') (show_nat (nat y))) = 4"
    by (intro pad_show_nat_length) simp_all
  have "m < 10 ^ 2" "d < 10 ^ 2" using assms(3,4) by simp_all
  then have 2: "length (padStart 2 (CHR ''0'') (show_nat m)) = 2"
    and 3: "length (padStart 2 (CHR ''0'') (show_nat d)) = 2"
    by (simp_all add: pad_show_nat_length)
  show ?thesis
    unfolding spec_iso_date_def y
    using iso_date_fields_parts [OF 1 2 3 pad_show_nat_digits pad_show_nat_digits pad_show_nat_digits]
    by (simp add: pad_show_nat_value)
qed

lemma year4_show: "1000 \<le> y \<Longrightarrow> y \<le> 9999 \<Longrightarrow> padStart 4 (CHR ''0'') (show_int y) = show_int y"
  by (intro padStart_id) (simp add: show_int_def show_nat_length4)

lemma pad2_one: "padStart 2 (CHR ''0'') (show_nat (Suc 0)) = ''01''"
  by (simp add: padStart_def show_nat.simps digit_char_def)

lemma getPayPeriod_spec_iso:
  assumes "valid_date d" and "1000 \<le> getFullYear d" and "getFullYear d \<le> 9999"
  shows "getPayPeriod d =
           \<lparr>startDate = spec_iso_date (getFullYear d) (Suc (getMonth d))
                          (if getDate d \<le> 15 then 1 else 16),
            endDate = spec_iso_date (getFullYear d) (Suc (getMonth d))
                          (if getDate d \<le> 15 then 15
                           else DaysInMonth (getFullYear d) (Suc (getMonth d)))\<rparr>"
proof -
  have y: "1000 \<le> getFullYear d" "getFullYear d \<le> 9999" using assms by simp_all
  have last: "new_Date_day0_getDate (getFullYear d) (Suc (getMonth d)) =
      DaysInMonth (getFullYear d) (Suc (getMonth d))"
    using y by (simp add: new_Date_day0_getDate_def)
  show ?thesis
    by (simp add: getPayPeriod_def Let_def spec_iso_date_def year4_show [OF y] pad2_consts
        pad2_one pad2_DaysInMonth last)
qed

lemma getPayPeriod_start_fields:
  assumes "valid_date d" and "1000 \<le> getFullYear d" and "getFullYear d \<le> 9999"
  shows "iso_date_fields (startDate (getPayPeriod d)) =
           Some (nat (getFullYear d), Suc (getMonth d), if getDate d \<le> 15 then 1 else 16)"
proof -
  have "Suc (getMonth d) \<le> 12" using assms(1) by (simp add: valid_date_def)
  then have "iso_date_fields (spec_iso_date (getFullYear d) (Suc (getMonth d))
        (if getDate d \<le> 15 then 1 else 16)) =
      Some (nat (getFullYear d), Suc (getMonth d), if getDate d \<le> 15 then 1 else 16)"
    using assms(2,3) by (intro spec_iso_date_fields) simp_all
  then show ?thesis
    by (simp only: getPayPeriod_spec_iso [OF assms] pay_period.select_convs)
qed

lemma getPayPeriod_end_fields:
  assumes "valid_date d" and "1000 \<le> getFullYear d" and "getFullYear d \<le> 9999"
  shows "iso_date_fields (endDate (getPayPeriod d)) =
           Some (nat (getFullYear d), Suc (getMonth d),
                 if getDate d \<le> 15 then 15 else DaysInMonth (getFullYear d) (Suc (getMonth d)))"
proof -
  have "Suc (getMonth d) \<le> 12" using assms(1) by (simp add: valid_date_def)
  moreover have "(if getDate d \<le> 15 then 15 else DaysInMonth (getFullYear d) (Suc (getMonth d))) \<le> 99"
    using DaysInMonth_bounds [of "getFullYear d" "Suc (getMonth d)"] by simp
  ultimately have "iso_date_fields (spec_iso_date (getFullYear d) (Suc (getMonth d))
        (if getDate d \<le> 15 then 15 else DaysInMonth (getFullYear d) (Suc (getMonth d)))) =
      Some (nat (getFullYear d), Suc (getMonth d),
            if getDate d \<le> 15 then 15 else DaysInMonth (getFullYear d) (Suc (getMonth d)))"
    using assms(2,3) by (intro spec_iso_date_fields) simp_all
  then show ?thesis
    by (simp only: getPayPeriod_spec_iso [OF assms] pay_period.select_convs)
qed

text \<open>
  Claim C2, for dates whose year has four digits: \<open>getPayPeriod\<close> returns the strings
  \<^verbatim>\<open>YYYY-MM-DD\<close> of the 1st and the 15th of the month of \<open>d\<close> when the day of \<open>d\<close> is at
  most 15, and of the 16th and the last calendar day of that month otherwise. Both
  strings read back as dates of the year and month of \<open>d\<close>, the last day is the length
  of the month (28, 29, 30 or 31 days, 29 in a leap-year February), and the day of \<open>d\<close>
  lies between the two boundaries.
\<close>

theorem getPayPeriod_semi_monthly:
  assumes "valid_date d" and "1000 \<le> getFullYear d" and "getFullYear d \<le> 9999"
  shows "let y = getFullYear d; m = getMonth d + 1;
             s = (if getDate d \<le> 15 then 1 else 16);
             e = (if getDate d \<le> 15 then 15 else DaysInMonth y m)
         in getPayPeriod d = \<lparr>startDate = spec_iso_date y m s, endDate = spec_iso_date y m e\<rparr> \<and>
            iso_date_fields (startDate (getPayPeriod d)) = Some (nat y, m, s) \<and>
            iso_date_fields (endDate (getPayPeriod d)) = Some (nat y, m, e) \<and>
            1 \<le> s \<and> s \<le> getDate d \<and> getDate d \<le> e \<and> e \<le> DaysInMonth y m"
proof -
  let ?y = "getFullYear d"
  let ?m = "Suc (getMonth d)"
  let ?s = "if getDate d \<le> 15 then 1 else (16::nat)"
  let ?e = "if getDate d \<le> 15 then 15 else DaysInMonth ?y ?m"
  have day: "1 \<le> getDate d" "getDate d \<le> DaysInMonth ?y ?m"
    using assms(1) by (simp_all add: valid_date_def)
  have b: "1 \<le> ?s \<and> ?s \<le> getDate d \<and> getDate d \<le> ?e \<and> ?e \<le> DaysInMonth ?y ?m"
    using day DaysInMonth_bounds [of ?y ?m] by simp
  have eq: "getMonth d + 1 = Suc (getMonth d)" by simp
  show ?thesis
    unfolding Let_def eq
  proof (intro conjI)
    show "getPayPeriod d = \<lparr>startDate = spec_iso_date ?y ?m ?s, endDate = spec_iso_date ?y ?m ?e\<rparr>"
      by (rule getPayPeriod_spec_iso [OF assms])
    show "iso_date_fields (startDate (getPayPeriod d)) = Some (nat ?y, ?m, ?s)"
      by (rule getPayPeriod_start_fields [OF assms])
    show "iso_date_fields (endDate (getPayPeriod d)) = Some (nat ?y, ?m, ?e)"
      by (rule getPayPeriod_end_fields [OF assms])
  qed (use b in blast)+
qed

theorem getPayPeriod_semi_monthly_witness:
  "valid_date \<lparr>getFullYear = 2024, getMonth = 1, getDate = 20\<rparr> \<and>
   getPayPeriod \<lparr>getFullYear = 2024, getMonth = 1, getDate = 20\<rparr> =
     \<lparr>startDate = ''2024-02-16'', endDate = ''2024-02-29''\<rparr> \<and>
   iso_date_fields (endDate (getPayPeriod \<lparr>getFullYear = 2024, getMonth = 1, getDate = 20\<rparr>)) =
     Some (2024, 2, 29)"
proof -
  let ?d = "\<lparr>getFullYear = 2024, getMonth = 1, getDate = 20\<rparr>"
  have v: "valid_date ?d" by (simp add: valid_date_def DaysInMonth_def InLeapYear_def)
  have y: "1000 \<le> getFullYear ?d" "getFullYear ?d \<le> 9999" by simp_all
  have s: "spec_iso_date 2024 2 16 = ''2024-02-16''" "spec_iso_date 2024 2 29 = ''2024-02-29''"
    by code_simp+
  have m: "getMonth ?d + 1 = 2" by simp
  from getPayPeriod_semi_monthly [OF v y, unfolded Let_def m]
  have "getPayPeriod ?d = \<lparr>startDate = ''2024-02-16'', endDate = ''2024-02-29''\<rparr>"
    and "iso_date_fields (endDate (getPayPeriod ?d)) = Some (2024, 2, 29)"
    by (elim conjE, simp add: s DaysInMonth_def InLeapYear_def)+
  with v show ?thesis by blast
qed

theorem getPayPeriod_three_digit_year:
  "getPayPeriod \<lparr>getFullYear = 999, getMonth = 2, getDate = 10\<rparr> =
     \<lparr>startDate = ''999-03-01'', endDate = ''999-03-15''\<rparr> \<and>
   \<not> is_iso_date ''999-03-01'' \<and> spec_iso_date 999 3 1 = ''0999-03-01''"
proof (intro conjI)
  show "getPayPeriod \<lparr>getFullYear = 999, getMonth = 2, getDate = 10\<rparr> =
     \<lparr>startDate = ''999-03-01'', endDate = ''999-03-15''\<rparr>" by code_simp
  show "\<not> is_iso_date ''999-03-01''" by code_simp
  show "spec_iso_date 999 3 1 = ''0999-03-01''" by code_simp
qed

lemma show_nat_inj: "show_nat a = show_nat b \<Longrightarrow> a = b"
  by (metis show_nat_value)

lemma show_nat_hd_digit: "is_digit (hd (show_nat n))"
  using show_nat_digits [of n] show_nat_not_Nil [of n]
  by (cases "show_nat n") simp_all

lemma show_int_inj: "show_int a = show_int b \<Longrightarrow> a = b"
proof -
  assume eq: "show_int a = show_int b"
  have neg: "hd (show_int i) = CHR ''-'' \<longleftrightarrow> i < 0" for i
    using show_nat_hd_digit [of "nat i"] minus_not_digit by (auto simp: show_int_def)
  from eq neg [of a] neg [of b] have s: "a < 0 \<longleftrightarrow> b < 0" by simp
  show ?thesis
  proof (cases "a < 0")
    case True
    with s eq have "show_nat (nat (- a)) = show_nat (nat (- b))" by (simp add: show_int_def)
    then have "nat (- a) = nat (- b)" by (rule show_nat_inj)
    with True s show ?thesis by simp
  next
    case False
    with s eq have "show_nat (nat a) = show_nat (nat b)" by (simp add: show_int_def)
    then have "nat a = nat b" by (rule show_nat_inj)
    with False s show ?thesis by simp
  qed
qed

lemma split_at_first:
  "list_all P xs \<Longrightarrow> list_all P ys \<Longrightarrow> \<not> P c \<Longrightarrow> xs @ c # u = ys @ c # v \<Longrightarrow> xs = ys \<and> u = v"
proof (induction xs arbitrary: ys)
  case Nil
  then show ?case by (cases ys) auto
next
  case (Cons x xs)
  then show ?case by (cases ys) auto
qed

lemma show_int_split:
  assumes "show_int a @ ''-'' @ u = show_int b @ ''-'' @ v"
  shows "a = b \<and> u = v"
proof -
  have neg: "hd (show_int i @ w) = CHR ''-'' \<longleftrightarrow> i < 0" for i w
    using show_nat_hd_digit [of "nat i"] minus_not_digit show_nat_not_Nil [of "nat i"]
    by (auto simp: show_int_def)
  from assms neg [of a "''-'' @ u"] neg [of b "''-'' @ v"] have s: "a < 0 \<longleftrightarrow> b < 0" by simp
  show ?thesis
  proof (cases "a < 0")
    case True
    with s assms have "show_nat (nat (- a)) @ CHR ''-'' # u = show_nat (nat (- b)) @ CHR ''-'' # v"
      by (simp add: show_int_def)
    from split_at_first [OF show_nat_digits show_nat_digits minus_not_digit this]
    have "nat (- a) = nat (- b)" "u = v" by (simp_all add: show_nat_inj)
    with True s show ?thesis by simp
  next
    case False
    with s assms have "show_nat (nat a) @ CHR ''-'' # u = show_nat (nat b) @ CHR ''-'' # v"
      by (simp add: show_int_def)
    from split_at_first [OF show_nat_digits show_nat_digits minus_not_digit this]
    have "nat a = nat b" "u = v" by (simp_all add: show_nat_inj)
    with False s show ?thesis by simp
  qed
qed

lemma show_nat_DaysInMonth_length: "length (show_nat (DaysInMonth y m)) = 2"
  using DaysInMonth_bounds [of y m] by (simp add: show_nat_length2)

lemma getPayPeriod_lengths: "length (startDate (getPayPeriod d)) = length (endDate (getPayPeriod d))"
  by (simp add: getPayPeriod_def Let_def new_Date_day0_getDate_def show_nat_DaysInMonth_length)

lemma period_split:
  assumes "startDate p @ ''-'' @ endDate p = startDate q @ ''-'' @ endDate q"
    and "length (startDate p) = length (endDate p)" and "length (startDate q) = length (endDate q)"
  shows "p = (q :: pay_period)"
proof -
  from assms(1) have "length (startDate p @ ''-'' @ endDate p) = length (startDate q @ ''-'' @ endDate q)"
    by simp
  with assms(2,3) have "length (startDate p) = length (startDate q)" by simp
  with assms(1) have "startDate p = startDate q \<and> endDate p = endDate q" by simp
  then show ?thesis by simp
qed

lemma row_key_eq_iff:
  "row_key r = row_key r' \<longleftrightarrow>
   employee_id r = employee_id r' \<and> getPayPeriod (date r) = getPayPeriod (date r')"
proof
  assume "row_key r = row_key r'"
  then have "employee_id r = employee_id r'"
    and "startDate (getPayPeriod (date r)) @ ''-'' @ endDate (getPayPeriod (date r)) =
         startDate (getPayPeriod (date r')) @ ''-'' @ endDate (getPayPeriod (date r'))"
    using show_int_split unfolding row_key_def by blast+
  then show "employee_id r = employee_id r' \<and> getPayPeriod (date r) = getPayPeriod (date r')"
    using period_split [OF _ getPayPeriod_lengths getPayPeriod_lengths] by blast
qed (simp add: row_key_def)

lemma combine_row_key:
  "combine_row acc r =
     add_amount (row_key r) (row_amount r)
       (if map_of acc (row_key r) = None
        then acc @ [(row_key r, \<lparr>data_employeeId = employee_id r,
                      data_payPeriod = getPayPeriod (date r), data_amountPaid = Num 0\<rparr>)]
        else acc)"
  by (simp add: combine_row_def Let_def row_key_def row_amount_def)

lemma add_amount_keys: "map fst (add_amount k x acc) = map fst acc"
  by (induction acc) (auto simp: add_amount_def)

lemma add_amount_set:
  "set (add_amount k x acc) =
     (\<lambda>(k', v). if k' = k then (k', v\<lparr>data_amountPaid := js_add (data_amountPaid v) x\<rparr>) else (k', v)) ` set acc"
  by (simp add: add_amount_def)

lemma js_sum_snoc: "js_sum (xs @ [x]) = js_add (js_sum xs) x"
  by (simp add: js_sum_def)

lemma group_inv_step:
  assumes "group_inv rows acc"
  shows "group_inv (rows @ [r]) (combine_row acc r)"
proof -
  let ?k = "row_key r"
  let ?new = "(?k, \<lparr>data_employeeId = employee_id r, data_payPeriod = getPayPeriod (date r),
                   data_amountPaid = Num 0\<rparr>)"
  let ?acc = "if map_of acc ?k = None then acc @ [?new] else acc"
  from assms have d: "distinct (map fst acc)" and ks: "fst ` set acc = row_key ` set rows"
    and vs: "\<And>k v. (k, v) \<in> set acc \<Longrightarrow> \<exists>r\<in>set rows. row_key r = k \<and>
          data_employeeId v = employee_id r \<and> data_payPeriod v = getPayPeriod (date r) \<and>
          data_amountPaid v = js_sum (map row_amount (filter (\<lambda>r'. row_key r' = k) rows))"
    by (auto simp: group_inv_def)
  have none: "map_of acc ?k = None \<longleftrightarrow> ?k \<notin> row_key ` set rows"
    using ks by (simp add: map_of_eq_None_iff)
  have d': "distinct (map fst ?acc)"
    using d by (auto simp: map_of_eq_None_iff)
  have ks': "fst ` set ?acc = row_key ` set (rows @ [r])"
    using ks none by (auto simp: map_of_eq_None_iff)
  have vs': "\<exists>r'\<in>set (rows @ [r]). row_key r' = k \<and>
          data_employeeId v = employee_id r' \<and> data_payPeriod v = getPayPeriod (date r') \<and>
          data_amountPaid (if k = ?k then v\<lparr>data_amountPaid := js_add (data_amountPaid v) (row_amount r)\<rparr> else v) =
            js_sum (map row_amount (filter (\<lambda>r'. row_key r' = k) (rows @ [r])))"
    if kv: "(k, v) \<in> set ?acc" for k v
  proof (cases "(k, v) \<in> set acc")
    case True
    from vs [OF True] obtain r0 where r0: "r0 \<in> set rows" "row_key r0 = k"
      "data_employeeId v = employee_id r0" "data_payPeriod v = getPayPeriod (date r0)"
      "data_amountPaid v = js_sum (map row_amount (filter (\<lambda>r'. row_key r' = k) rows))"
      by blast
    show ?thesis
      by (rule bexI [of _ r0]) (use r0 in \<open>auto simp: js_sum_snoc\<close>)
  next
    case False
    with kv have new: "map_of acc ?k = None" "k = ?k"
      "v = \<lparr>data_employeeId = employee_id r, data_payPeriod = getPayPeriod (date r),
            data_amountPaid = Num 0\<rparr>"
      by (auto split: if_splits)
    from new(1) none have "?k \<notin> row_key ` set rows" by simp
    then have "filter (\<lambda>r'. row_key r' = ?k) rows = []"
      unfolding filter_empty_conv by (metis imageI)
    then show ?thesis
      using new by (intro bexI [of _ r]) (simp_all add: js_sum_def)
  qed
  show ?thesis
    unfolding combine_row_key group_inv_def add_amount_keys
  proof (intro conjI)
    show "distinct (map fst ?acc)" by (rule d')
    show "fst ` set (add_amount ?k (row_amount r) ?acc) = row_key ` set (rows @ [r])"
      using ks' add_amount_keys [of ?k "row_amount r" ?acc] by (metis set_map)
    show "\<forall>(k, v)\<in>set (add_amount ?k (row_amount r) ?acc).
            \<exists>r'\<in>set (rows @ [r]). row_key r' = k \<and> data_employeeId v = employee_id r' \<and>
              data_payPeriod v = getPayPeriod (date r') \<and>
              data_amountPaid v = js_sum (map row_amount (filter (\<lambda>r'. row_key r' = k) (rows @ [r])))"
    proof (clarify)
      fix k v assume "(k, v) \<in> set (add_amount ?k (row_amount r) ?acc)"
      then obtain p where p: "p \<in> set ?acc"
        and kv: "(k, v) = (case p of (k', v) \<Rightarrow> if k' = ?k
                   then (k', v\<lparr>data_amountPaid := js_add (data_amountPaid v) (row_amount r)\<rparr>)
                   else (k', v))"
        unfolding add_amount_set by blast
      obtain k0 v0 where p0: "p = (k0, v0)" by (cases p)
      from kv p0 have "k0 = k" by (simp split: if_splits)
      with p p0 kv have v0: "(k, v0) \<in> set ?acc"
        and v: "v = (if k = ?k then v0\<lparr>data_amountPaid := js_add (data_amountPaid v0) (row_amount r)\<rparr> else v0)"
        by (simp_all split: if_splits)
      from vs' [OF v0] obtain r' where "r' \<in> set (rows @ [r])" "row_key r' = k"
        "data_employeeId v0 = employee_id r'" "data_payPeriod v0 = getPayPeriod (date r')"
        "data_amountPaid v = js_sum (map row_amount (filter (\<lambda>r'. row_key r' = k) (rows @ [r])))"
        unfolding v by blast
      then show "\<exists>r'\<in>set (rows @ [r]). row_key r' = k \<and> data_employeeId v = employee_id r' \<and>
              data_payPeriod v = getPayPeriod (date r') \<and>
              data_amountPaid v = js_sum (map row_amount (filter (\<lambda>r'. row_key r' = k) (rows @ [r])))"
        by (intro bexI [of _ r']) (auto simp: v)
    qed
  qed
qed

lemma group_inv_foldl: "group_inv rows (foldl combine_row [] rows)"
proof (induction rows rule: rev_induct)
  case Nil
  show ?case by (simp add: group_inv_def)
next
  case (snoc r rows)
  then show ?case using group_inv_step by simp
qed

lemma report_unsorted: "report legacy rows = array_sort (compare_lines legacy) (unsorted_lines rows)"
  by (simp add: report_def unsorted_lines_def)

lemma same_key_rows:
  "filter (\<lambda>r'. row_key r' = row_key r) rows =
     pair_rows (show_int (employee_id r)) (getPayPeriod (date r)) rows"
  unfolding pair_rows_def
  by (rule filter_cong) (auto simp: row_key_eq_iff dest: show_int_inj)

lemma line_of_eq_iff:
  "line_of rows r = line_of rows r' \<longleftrightarrow> row_key r = row_key r'"
proof
  assume "line_of rows r = line_of rows r'"
  then have "show_int (employee_id r) = show_int (employee_id r')"
    and "getPayPeriod (date r) = getPayPeriod (date r')"
    by (simp_all add: line_of_def)
  then show "row_key r = row_key r'" by (simp add: row_key_eq_iff show_int_inj)
next
  assume "row_key r = row_key r'"
  then show "line_of rows r = line_of rows r'"
    by (simp add: line_of_def row_key_eq_iff)
qed

lemma unsorted_lines_map:
  "unsorted_lines rows = map (\<lambda>(k, v). format_line v) (foldl combine_row [] rows) \<and>
   (\<forall>(k, v)\<in>set (foldl combine_row [] rows). \<exists>r\<in>set rows. row_key r = k \<and> format_line v = line_of rows r)"
proof -
  from group_inv_foldl [of rows]
  have vs: "\<And>k v. (k, v) \<in> set (foldl combine_row [] rows) \<Longrightarrow> \<exists>r\<in>set rows. row_key r = k \<and>
          data_employeeId v = employee_id r \<and> data_payPeriod v = getPayPeriod (date r) \<and>
          data_amountPaid v = js_sum (map row_amount (filter (\<lambda>r'. row_key r' = k) rows))"
    by (auto simp: group_inv_def)
  have "\<exists>r\<in>set rows. row_key r = k \<and> format_line v = line_of rows r"
    if "(k, v) \<in> set (foldl combine_row [] rows)" for k v
  proof -
    from vs [OF that] obtain r where "r \<in> set rows" "row_key r = k"
      "data_employeeId v = employee_id r" "data_payPeriod v = getPayPeriod (date r)"
      "data_amountPaid v = js_sum (map row_amount (filter (\<lambda>r'. row_key r' = k) rows))"
      by blast
    then show ?thesis
      by (intro bexI [of _ r]) (simp_all add: format_line_def line_of_def)
  qed
  then show ?thesis by (auto simp: unsorted_lines_def)
qed

lemma unsorted_lines_set: "set (unsorted_lines rows) = line_of rows ` set rows"
proof (intro equalityI subsetI)
  fix l assume "l \<in> set (unsorted_lines rows)"
  then obtain k v where kv: "(k, v) \<in> set (foldl combine_row [] rows)" and l: "l = format_line v"
    by (auto simp: unsorted_lines_def)
  with unsorted_lines_map [of rows] obtain r where "r \<in> set rows" "format_line v = line_of rows r"
    by blast
  with l show "l \<in> line_of rows ` set rows" by simp
next
  fix l assume "l \<in> line_of rows ` set rows"
  then obtain r where r: "r \<in> set rows" and l: "l = line_of rows r" by blast
  from group_inv_foldl [of rows] have "fst ` set (foldl combine_row [] rows) = row_key ` set rows"
    by (simp add: group_inv_def)
  with r have "row_key r \<in> fst ` set (foldl combine_row [] rows)" by blast
  then obtain v where kv: "(row_key r, v) \<in> set (foldl combine_row [] rows)" by force
  with unsorted_lines_map [of rows] obtain r' where "r' \<in> set rows" "row_key r' = row_key r"
    "format_line v = line_of rows r'" by blast
  then have "format_line v = l" using l line_of_eq_iff [of rows r' r] by simp
  with kv show "l \<in> set (unsorted_lines rows)" by (force simp: unsorted_lines_def)
qed

lemma unsorted_lines_distinct_pairs:
  "distinct (map (\<lambda>l. (employeeId l, payPeriod l)) (unsorted_lines rows))"
proof -
  let ?acc = "foldl combine_row [] rows"
  have d: "distinct (map fst ?acc)" using group_inv_foldl [of rows] by (simp add: group_inv_def)
  have "inj_on (\<lambda>(k, v). (employeeId (format_line v), payPeriod (format_line v))) (set ?acc)"
  proof (rule inj_onI, clarify)
    fix k v k' v'
    assume a: "(k, v) \<in> set ?acc" "(k', v') \<in> set ?acc"
      and e: "employeeId (format_line v) = employeeId (format_line v')"
      and p: "payPeriod (format_line v) = payPeriod (format_line v')"
    from a unsorted_lines_map [of rows] obtain r r' where
      r: "row_key r = k" "format_line v = line_of rows r" and
      r': "row_key r' = k'" "format_line v' = line_of rows r'" by blast
    from e p r(2) r'(2) have "line_of rows r = line_of rows r' \<or>
        (show_int (employee_id r) = show_int (employee_id r') \<and>
         getPayPeriod (date r) = getPayPeriod (date r'))"
      by (simp add: line_of_def)
    then have "row_key r = row_key r'"
      using line_of_eq_iff [of rows r r'] row_key_eq_iff [of r r'] show_int_inj by blast
    with r r' have "k = k'" by simp
    with a d show "k = k' \<and> v = v'" by (metis eq_key_imp_eq_value)
  qed
  moreover have "distinct ?acc" using d by (simp add: distinct_map)
  ultimately have "distinct (map (\<lambda>(k, v). (employeeId (format_line v), payPeriod (format_line v))) ?acc)"
    by (simp add: distinct_map)
  moreover have "map (\<lambda>l. (employeeId l, payPeriod l)) (unsorted_lines rows) =
      map (\<lambda>(k, v). (employeeId (format_line v), payPeriod (format_line v))) ?acc"
    by (simp add: unsorted_lines_def case_prod_unfold)
  ultimately show ?thesis by simp
qed

lemma mset_sort_insert: "mset (sort_insert cmp x xs) = add_mset x (mset xs)"
  by (induction xs) simp_all

lemma mset_array_sort: "mset (array_sort cmp xs) = mset xs"
  by (induction xs) (simp_all add: array_sort_def mset_sort_insert)

lemma set_array_sort: "set (array_sort cmp xs) = set xs"
  by (metis mset_array_sort set_mset_mset)

lemma js_sum_foldl: "foldl js_add a xs = (if NaN \<in> set xs \<or> a = NaN then NaN else Num (the_num a + sum_list (map the_num xs)))"
proof (induction xs arbitrary: a)
  case Nil
  then show ?case by (cases a) simp_all
next
  case (Cons x xs)
  show ?case by (cases a; cases x) (simp_all add: Cons.IH)
qed

lemma js_sum_eq: "js_sum xs = (if NaN \<in> set xs then NaN else Num (sum_list (map the_num xs)))"
  by (simp add: js_sum_def js_sum_foldl)







lemma row_amount_unknown:
  "job_group r \<noteq> ''A'' \<Longrightarrow> job_group r \<noteq> ''B'' \<Longrightarrow> row_amount r = NaN"
  by (simp add: row_amount_def jobGroupRates_def)




lemma report_pairs_distinct: "distinct (map (\<lambda>l. (employeeId l, payPeriod l)) (report legacy rows))"
proof -
  have "mset (map (\<lambda>l. (employeeId l, payPeriod l)) (report legacy rows)) =
        mset (map (\<lambda>l. (employeeId l, payPeriod l)) (unsorted_lines rows))"
    by (simp add: report_unsorted mset_array_sort)
  then show ?thesis
    using unsorted_lines_distinct_pairs [of rows] by (metis mset_eq_imp_distinct_iff)
qed





lemma filter_distinct_key:
  "distinct (map f xs) \<Longrightarrow> x \<in> set xs \<Longrightarrow> filter (\<lambda>y. f y = f x) xs = [x]"
proof (induction xs)
  case Nil
  then show ?case by simp
next
  case (Cons a xs)
  show ?case
  proof (cases "a = x")
    case True
    with Cons.prems have "f x \<notin> f ` set xs" by simp
    then have "\<forall>y\<in>set xs. f y \<noteq> f x" by (metis imageI)
    then have "filter (\<lambda>y. f y = f x) xs = []" by (simp add: filter_empty_conv)
    with True show ?thesis by simp
  next
    case False
    with Cons.prems have "x \<in> set xs" "f a \<noteq> f x" by auto
    with Cons show ?thesis by simp
  qed
qed

text \<open>
  Claim C9: for a stored entry whose job group is neither A nor B, the report has
  exactly one line for the employee and pay period of the entry, and the amount of
  that line is the string \<^verbatim>\<open>$NaN\<close>. The report is a total function, so it does not
  fail; the entry is not dropped and no zero rate stands in for the missing one.
\<close>

theorem report_unknown_job_group:
  assumes "r \<in> set rows" and "job_group r \<noteq> ''A''" and "job_group r \<noteq> ''B''"
  shows "filter (\<lambda>l. employeeId l = show_int (employee_id r) \<and> payPeriod l = getPayPeriod (date r))
           (report legacy rows) =
         [\<lparr>employeeId = show_int (employee_id r), payPeriod = getPayPeriod (date r),
           amountPaid = ''$NaN''\<rparr>]"
proof -
  let ?e = "show_int (employee_id r)" and ?p = "getPayPeriod (date r)"
  let ?l = "line_of rows r"
  have mem: "?l \<in> set (report legacy rows)"
    using assms(1) by (simp add: report_unsorted set_array_sort unsorted_lines_set)
  have "r \<in> set (pair_rows ?e ?p rows)" using assms(1) by (simp add: pair_rows_def)
  then have "NaN \<in> set (map row_amount (pair_rows ?e ?p rows))"
    using row_amount_unknown [OF assms(2,3)] by force
  then have "js_sum (map row_amount (pair_rows ?e ?p rows)) = NaN" by (simp add: js_sum_eq)
  then have l: "?l = \<lparr>employeeId = ?e, payPeriod = ?p, amountPaid = ''$NaN''\<rparr>"
    by (simp add: line_of_def same_key_rows)
  have "filter (\<lambda>y. (employeeId y, payPeriod y) = (employeeId ?l, payPeriod ?l)) (report legacy rows) = [?l]"
    using report_pairs_distinct mem by (rule filter_distinct_key)
  then show ?thesis unfolding l by simp
qed

theorem report_unknown_job_group_witness:
  "mk_row 2023 0 14 500 1 ''C'' \<in> set unknown_group_rows \<and>
   job_group (mk_row 2023 0 14 500 1 ''C'') = ''C'' \<and>
   filter (\<lambda>l. employeeId l = ''1'' \<and>
                payPeriod l = \<lparr>startDate = ''2023-01-01'', endDate = ''2023-01-15''\<rparr>)
     (report no_legacy_dates unknown_group_rows) =
   [\<lparr>employeeId = ''1'', payPeriod = \<lparr>startDate = ''2023-01-01'', endDate = ''2023-01-15''\<rparr>,
     amountPaid = ''$NaN''\<rparr>]"
proof -
  let ?r = "mk_row 2023 0 14 500 1 ''C''"
  have m: "?r \<in> set unknown_group_rows" by (simp add: unknown_group_rows_def)
  have g: "job_group ?r = ''C''" by (simp add: mk_row_def)
  have a: "job_group ?r \<noteq> ''A''" and b: "job_group ?r \<noteq> ''B''" by (simp_all add: g)
  have e: "show_int (employee_id ?r) = ''1''" by code_simp
  have p: "getPayPeriod (date ?r) = \<lparr>startDate = ''2023-01-01'', endDate = ''2023-01-15''\<rparr>"
    by code_simp
  from report_unknown_job_group [OF m a b, of no_legacy_dates] m g show ?thesis
    unfolding e p by blast
qed



























end
